theory Spec2Isabelle
  imports Main "HOL-Library.Word"
begin

text \<open>
  The pipeline job of the package \<open>pipeline\<close> (\<open>Run\<close>, \<open>doWork\<close>, \<open>shouldExecuteStep\<close>,
  \<open>executeStep\<close>) and the dependency tree printer of \<open>cmd/print.go\<close>
  (\<open>printDependencyRecursive\<close>), as functions on an explicit state.
\<close>

section \<open>Errors, log records and the shell executor's interface\<close>

text \<open>
  Go errors are values. The constructors are the error values that the two source files
  build or inspect:
  \<^item> \<open>ExitStatus n\<close>: an error of the interpreter for which \<open>interp.IsExitStatus\<close> answers
    \<open>(n, true)\<close>; the status is a \<open>uint8\<close>;
  \<^item> \<open>Failure m\<close>: any other error (\<open>interp.IsExitStatus\<close> answers \<open>(0, false)\<close>);
  \<^item> \<open>CondError e out errout\<close>: the value of
    \<open>fmt.Errorf("error: %v (stdout: %s, stderr: %s)", e, out, errout)\<close>;
  \<^item> \<open>Wrapf e i\<close>: the value of \<open>errors.Wrapf(e, "error checking if at step %d", i)\<close>.
  A nil error is \<open>None\<close>.
\<close>

datatype error =
    ExitStatus "8 word"
  | Failure string
  | CondError error string string
  | Wrapf error nat

text \<open>
  \<open>interp.IsExitStatus\<close>: the status and whether the error is an exit status. It looks
  for the exit status with \<open>errors.As\<close>, so through the wrapping of \<open>errors.Wrapf\<close>; an
  error built by \<open>fmt.Errorf\<close> with \<open>%v\<close> wraps nothing.
\<close>

fun IsExitStatus :: "error \<Rightarrow> 8 word \<times> bool" where
  "IsExitStatus (ExitStatus n) = (n, True)"
| "IsExitStatus (Failure m) = (0, False)"
| "IsExitStatus (CondError e out errout) = (0, False)"
| "IsExitStatus (Wrapf e i) = IsExitStatus e"

text \<open>The logger methods that the source calls, as the records they leave.\<close>

datatype log_entry = Info string | Warn string | WriteString string

text \<open>
  The two output streams of a command, and the writers that the source hands to the shell
  executor: the two \<open>bytes.Buffer\<close>s of \<open>shouldExecuteStep\<close> and the single pipe writer of
  \<open>executeStep\<close>.
\<close>

datatype stream = Stdout | Stderr

datatype writer = StdoutBuffer | StderrBuffer | PipeWriter

text \<open>
  One call of \<open>engine.ExecuteShellCommand\<close>: the command line, the positional arguments
  (\<open>os.Args[1:]\<close>), the working directory, the two writers, the two arguments of
  \<open>env.NewVariableEnvProvider\<close> and the flag given to \<open>engine.NewExecHandler\<close>.
\<close>

record invocation =
  command :: string
  args :: "string list"
  dir :: string
  stdoutW :: writer
  stderrW :: writer
  envConfig :: "(string \<times> string) list"
  envStep :: "(string \<times> string) list"
  handlerFlag :: bool

text \<open>
  What a call of the shell executor does, as far as the source can see: the chunks it writes,
  in order, each to standard output or to standard error, and the error it returns.
\<close>

record shell_result =
  writes :: "(stream \<times> string) list"
  status :: "error option"

text \<open>The bytes that reach a writer: the chunks of the streams attached to it, in order.\<close>

definition received :: "invocation \<Rightarrow> shell_result \<Rightarrow> writer \<Rightarrow> string" where
  "received c r w =
     concat (map snd (filter (\<lambda>(st, _). (case st of Stdout \<Rightarrow> stdoutW c | Stderr \<Rightarrow> stderrW c) = w)
                             (writes r)))"

text \<open>
  The collaborators that are not part of the two source files: the shell executor (a
  function of the call and of the world it runs in, which it may change), the arguments of
  the host process, the resolved configuration variables (\<open>ctx.Config\<close>) and the tokens that
  \<open>scanner.NewScanner\<close> yields on a byte stream.
\<close>

record 'w Context =
  ExecuteShellCommand :: "invocation \<Rightarrow> 'w \<Rightarrow> shell_result \<times> 'w"
  osArgs :: "string list"
  Config :: "(string \<times> string) list"
  scanTokens :: "string \<Rightarrow> string list"

text \<open>
  The state that the step runner works on:
  \<^item> \<open>world\<close>: the world of the shell commands;
  \<^item> \<open>scanners\<close>: for every goroutine that \<open>executeStep\<close> has started, in the order of
    their start, the records that it gives to \<open>ctx.Log\<close> as it scans its pipe, in its own
    order. The goroutines are never joined: the state does not say which of these records
    the logger has received when \<open>executeStep\<close> or \<open>doWork\<close> returns, nor how the records
    of two goroutines interleave;
  \<^item> \<open>calls\<close>: the list of the shell executor's calls so far (a history variable: the
    source does not keep it, and no function below reads it).
\<close>

record 'w state =
  world :: 'w
  scanners :: "log_entry list list"
  calls :: "invocation list"

section \<open>Pipeline steps\<close>

record PipelineStep =
  step_Run :: string
  step_Directory :: string
  step_Env :: "(string \<times> string) list"
  step_If :: string

subsection \<open>\<open>strings.TrimSpace\<close>\<close>

text \<open>
  Go strings are byte strings in UTF-8. \<open>strings.TrimSpace\<close> removes the leading and the
  trailing white-space code points (\<open>unicode.IsSpace\<close>): the six ASCII ones and U+0085,
  U+00A0, U+1680, U+2000..U+200A, U+2028, U+2029, U+202F, U+205F, U+3000, here as their
  UTF-8 encodings.
\<close>

definition spaceRunes :: "string list" where
  "spaceRunes =
     [[CHR 0x09], [CHR 0x0A], [CHR 0x0B], [CHR 0x0C], [CHR 0x0D], [CHR 0x20],
      [CHR 0xC2, CHR 0x85], [CHR 0xC2, CHR 0xA0], [CHR 0xE1, CHR 0x9A, CHR 0x80],
      [CHR 0xE2, CHR 0x80, CHR 0x80], [CHR 0xE2, CHR 0x80, CHR 0x81],
      [CHR 0xE2, CHR 0x80, CHR 0x82], [CHR 0xE2, CHR 0x80, CHR 0x83],
      [CHR 0xE2, CHR 0x80, CHR 0x84], [CHR 0xE2, CHR 0x80, CHR 0x85],
      [CHR 0xE2, CHR 0x80, CHR 0x86], [CHR 0xE2, CHR 0x80, CHR 0x87],
      [CHR 0xE2, CHR 0x80, CHR 0x88], [CHR 0xE2, CHR 0x80, CHR 0x89],
      [CHR 0xE2, CHR 0x80, CHR 0x8A], [CHR 0xE2, CHR 0x80, CHR 0xA8],
      [CHR 0xE2, CHR 0x80, CHR 0xA9], [CHR 0xE2, CHR 0x80, CHR 0xAF],
      [CHR 0xE2, CHR 0x81, CHR 0x9F], [CHR 0xE3, CHR 0x80, CHR 0x80]]"

text \<open>The rune of \<open>ts\<close> that the string starts with, if any.\<close>

definition leadingRune :: "string list \<Rightarrow> string \<Rightarrow> string option" where
  "leadingRune ts s = find (\<lambda>t. t \<noteq> [] \<and> take (length t) s = t) ts"

function trimLeft :: "string list \<Rightarrow> string \<Rightarrow> string" where
  "trimLeft ts s =
     (case leadingRune ts s of None \<Rightarrow> s | Some t \<Rightarrow> trimLeft ts (drop (length t) s))"
  by pat_completeness auto

termination trimLeft
proof (relation "measure (\<lambda>(ts, s). length s)", goal_cases)
  case 1
  show ?case by simp
next
  case (2 ts s t)
  then have t: "t \<noteq> []" and tk: "take (length t) s = t"
    by (auto simp: leadingRune_def find_Some_iff)
  from tk have "length (take (length t) s) = length t"
    by simp
  then have "length t \<le> length s"
    by simp
  with t show ?case by (cases s) auto
qed

definition TrimSpace :: "string \<Rightarrow> string" where
  "TrimSpace s = rev (trimLeft (map rev spaceRunes) (rev (trimLeft spaceRunes s)))"

subsection \<open>The run condition and the step body\<close>

text \<open>The call of the shell executor in \<open>shouldExecuteStep\<close>, argument by argument.\<close>

definition condCall :: "'w Context \<Rightarrow> PipelineStep \<Rightarrow> invocation" where
  "condCall ctx step =
     \<lparr>command = step_Run step, args = osArgs ctx, dir = step_Directory step,
      stdoutW = StdoutBuffer, stderrW = StderrBuffer,
      envConfig = Config ctx, envStep = step_Env step, handlerFlag = False\<rparr>"

text \<open>
  \<open>shouldExecuteStep\<close> returns the pair \<open>(bool, error)\<close> of the source: \<open>(false, nil)\<close>,
  \<open>(false, err)\<close> or \<open>(true, nil)\<close>. The two buffers are local; nothing is written to the
  logger.
\<close>

definition shouldExecuteStep ::
  "'w Context \<Rightarrow> PipelineStep \<Rightarrow> 'w state \<Rightarrow> (bool \<times> error option) \<times> 'w state" where
  "shouldExecuteStep ctx step s =
     (let c = condCall ctx step;
          (r, w) = ExecuteShellCommand ctx c (world s);
          s' = s\<lparr>world := w, calls := calls s @ [c]\<rparr>;
          stdout = received c r StdoutBuffer;
          stderr = received c r StderrBuffer
      in case status r of
           Some e \<Rightarrow>
             (if snd (IsExitStatus e) \<and> fst (IsExitStatus e) = 1 then ((False, None), s')
              else ((False, Some (CondError e stdout stderr)), s'))
         | None \<Rightarrow>
             (if TrimSpace stdout = ''false'' then ((False, None), s')
              else ((True, None), s')))"

text \<open>The call of the shell executor in \<open>executeStep\<close>: one pipe writer for both streams.\<close>

definition bodyCall :: "'w Context \<Rightarrow> PipelineStep \<Rightarrow> invocation" where
  "bodyCall ctx step =
     \<lparr>command = step_Run step, args = osArgs ctx, dir = step_Directory step,
      stdoutW = PipeWriter, stderrW = PipeWriter,
      envConfig = Config ctx, envStep = step_Env step, handlerFlag = True\<rparr>"

text \<open>
  \<open>executeStep\<close> starts a goroutine that scans the read end of the pipe and calls
  \<open>ctx.Log.Info\<close> on every token of the scanner, runs the command with the write end for
  both streams, and returns the error of the shell executor, closing the write end on the
  way out. It does not wait for the goroutine: the new entry of \<open>scanners\<close> holds the
  records that the goroutine logs on the bytes written to the pipe, some of them perhaps
  after \<open>executeStep\<close> has returned.
\<close>

definition executeStep ::
  "'w Context \<Rightarrow> PipelineStep \<Rightarrow> 'w state \<Rightarrow> error option \<times> 'w state" where
  "executeStep ctx step s =
     (let c = bodyCall ctx step;
          (r, w) = ExecuteShellCommand ctx c (world s)
      in (status r,
          s\<lparr>world := w,
            scanners := scanners s @ [map Info (scanTokens ctx (received c r PipeWriter))],
            calls := calls s @ [c]\<rparr>))"

subsection \<open>\<open>doWork\<close>\<close>

text \<open>
  The body of the loop of \<open>doWork\<close> for the step at index \<open>i\<close>: \<open>Some e\<close> is \<open>return e\<close>,
  \<open>None\<close> is the end of the iteration.
\<close>

definition runStep ::
  "'w Context \<Rightarrow> nat \<Rightarrow> PipelineStep \<Rightarrow> 'w state \<Rightarrow> error option \<times> 'w state" where
  "runStep ctx i step s =
     (if step_If step \<noteq> [] then
        (case shouldExecuteStep ctx step s of
           ((execute, Some e), s1) \<Rightarrow> (Some (Wrapf e i), s1)
         | ((execute, None), s1) \<Rightarrow> (if execute then executeStep ctx step s1 else (None, s1)))
      else executeStep ctx step s)"

fun doWork_loop ::
  "'w Context \<Rightarrow> nat \<Rightarrow> PipelineStep list \<Rightarrow> 'w state \<Rightarrow> error option \<times> 'w state" where
  "doWork_loop ctx i [] s = (None, s)"
| "doWork_loop ctx i (step # steps) s =
     (case runStep ctx i step s of
        (Some e, s') \<Rightarrow> (Some e, s')
      | (None, s') \<Rightarrow> doWork_loop ctx (Suc i) steps s')"

definition doWork :: "'w Context \<Rightarrow> PipelineStep list \<Rightarrow> 'w state \<Rightarrow> error option \<times> 'w state" where
  "doWork ctx steps s = doWork_loop ctx 0 steps s"

text \<open>
  The calls of the shell executor that one iteration of the loop can make for a step: the
  condition alone, the condition and then the body, or the body alone.
\<close>

definition stepCalls :: "'w Context \<Rightarrow> PipelineStep \<Rightarrow> invocation list set" where
  "stepCalls ctx step =
     {[condCall ctx step], [condCall ctx step, bodyCall ctx step], [bodyCall ctx step]}"

section \<open>Pipeline jobs\<close>

text \<open>
  \<open>latest.PipelineJob\<close>, as far as the source reads it: the steps and whether a rerun
  policy is set (\<open>Rerun != nil\<close>).
\<close>

record PipelineJobConfig =
  Steps :: "PipelineStep list"
  Rerun :: "unit option"

text \<open>
  The \<open>Job\<close> interface. Its implementations are not part of the source, so the three
  methods are parameters, over a job state \<open>'j\<close> of the implementation's choice:
  \<open>Start\<close> takes the work function and returns its error; receiving from \<open>Done()\<close> either
  never returns (\<open>None\<close>) or returns once the job has finished, in the state the job has
  left; \<open>Error\<close> reads the job's error.
\<close>

record ('j, 'w) JobOps =
  Start :: "('w state \<Rightarrow> error option \<times> 'w state) \<Rightarrow> 'j \<Rightarrow> 'w state \<Rightarrow> error option \<times> 'j \<times> 'w state"
  Done :: "'j \<Rightarrow> 'w state \<Rightarrow> ('j \<times> 'w state) option"
  Error :: "'j \<Rightarrow> error option"

text \<open>
  \<open>PipelineJob\<close>. \<open>JobConfig\<close> and \<open>Job\<close> are taken to be set (not nil), as the graph
  builder leaves them. \<open>Parents\<close> and \<open>Children\<close> are the names of the nodes pointed to.
  \<open>startOnce\<close> is the flag of the \<open>sync.Once\<close>: whether \<open>Do\<close> has run its function.
  \<open>starts\<close> is a history variable, the number of calls of \<open>Job.Start\<close> so far; the job's
  methods cannot see it.
\<close>

record 'j PipelineJob =
  Name :: string
  JobConfig :: PipelineJobConfig
  Job :: 'j
  Parents :: "string list"
  Children :: "string list"
  startOnce :: bool
  err :: "error option"
  starts :: nat

text \<open>
  The \<open>select\<close> of the gating loop takes the case of a channel that is ready; when neither
  the context's nor the parent's \<open>Done\<close> channel ever is, it blocks for good. Which case
  the \<open>select\<close> for the parent at index \<open>i\<close> takes is given by the environment.
\<close>

datatype select_outcome = CtxDone | ParentDone | Neither

datatype gate_result = Proceed | Cancelled | Blocked

fun gate :: "(nat \<Rightarrow> select_outcome) \<Rightarrow> nat \<Rightarrow> string list \<Rightarrow> gate_result" where
  "gate sel i [] = Proceed"
| "gate sel i (parent # parents) =
     (case sel i of
        CtxDone \<Rightarrow> Cancelled
      | ParentDone \<Rightarrow> gate sel (Suc i) parents
      | Neither \<Rightarrow> Blocked)"

text \<open>
  The function that \<open>Run\<close> hands to \<open>startOnce.Do\<close>: \<open>None\<close> when it never returns, else
  the node and the state it leaves.
\<close>

definition startBody ::
  "('j, 'w) JobOps \<Rightarrow> 'w Context \<Rightarrow> (nat \<Rightarrow> select_outcome) \<Rightarrow> 'j PipelineJob \<Rightarrow> 'w state
     \<Rightarrow> ('j PipelineJob \<times> 'w state) option" where
  "startBody ops ctx sel j s =
     (case gate sel 0 (Parents j) of
        Blocked \<Rightarrow> None
      | Cancelled \<Rightarrow> Some (j, s)
      | Proceed \<Rightarrow>
          (case Start ops (doWork ctx (Steps (JobConfig j))) (Job j) s of
             (Some e, job1, s1) \<Rightarrow>
               Some (j\<lparr>Job := job1, starts := Suc (starts j), err := Some e\<rparr>, s1)
           | (None, job1, s1) \<Rightarrow>
               (case Done ops job1 s1 of
                  None \<Rightarrow> None
                | Some (job2, s2) \<Rightarrow>
                    (case Error ops job2 of
                       Some e \<Rightarrow>
                         Some (j\<lparr>Job := job2, starts := Suc (starts j), err := Some e\<rparr>, s2)
                     | None \<Rightarrow>
                         (if Rerun (JobConfig j) \<noteq> None
                          then Some (j\<lparr>Job := job2, starts := Suc (starts j)\<rparr>, s2)
                          else Some (j\<lparr>Job := job2, starts := Suc (starts j)\<rparr>, s2))))))"

text \<open>
  \<open>Run\<close>: \<open>None\<close> when the call never returns, else the returned error (\<open>j.err\<close>), the
  node and the state. \<open>sync.Once\<close> runs the function under its mutex and sets its flag when
  the function returns, on every path; a caller that finds the flag set skips the function.
\<close>

definition Run ::
  "('j, 'w) JobOps \<Rightarrow> 'w Context \<Rightarrow> (nat \<Rightarrow> select_outcome) \<Rightarrow> 'j PipelineJob \<Rightarrow> 'w state
     \<Rightarrow> (error option \<times> 'j PipelineJob \<times> 'w state) option" where
  "Run ops ctx sel j s =
     (if startOnce j then Some (err j, j, s)
      else
        (case startBody ops ctx sel j s of
           None \<Rightarrow> None
         | Some (j1, s1) \<Rightarrow> Some (err j1, j1\<lparr>startOnce := True\<rparr>, s1)))"

text \<open>
  Several callers of \<open>Run\<close> on one node, each with its own context. The \<open>sync.Once\<close> lets
  one caller at a time through, so the calls take effect one after the other, in the order
  of the list.
\<close>

fun RunAll ::
  "('j, 'w) JobOps \<Rightarrow> ('w Context \<times> (nat \<Rightarrow> select_outcome)) list \<Rightarrow> 'j PipelineJob \<Rightarrow> 'w state
     \<Rightarrow> (error option list \<times> 'j PipelineJob \<times> 'w state) option" where
  "RunAll ops [] j s = Some ([], j, s)"
| "RunAll ops ((ctx, sel) # callers) j s =
     (case Run ops ctx sel j s of
        None \<Rightarrow> None
      | Some (r, j1, s1) \<Rightarrow>
          (case RunAll ops callers j1 s1 of
             None \<Rightarrow> None
           | Some (rs, j2, s2) \<Rightarrow> Some (r # rs, j2, s2)))"

section \<open>Printing the dependency tree\<close>

text \<open>
  \<open>types.Dependency\<close>, as far as \<open>printDependencyRecursive\<close> reads it: the name, the ID and
  the children.
\<close>

datatype Dependency = Dependency (dep_Name: string) (dep_ID: string) (dep_Children: "Dependency list")

text \<open>The run-time panic of a slice expression whose bound exceeds the length.\<close>

datatype panic = SliceBoundsOutOfRange nat nat

text \<open>
  \<open>printDependencyRecursive\<close>, and the \<open>range\<close> loop over a list of dependencies. The
  argument of \<open>log.WriteString\<close> is evaluated first, so a panic of \<open>dep.ID()[:5]\<close> leaves the
  log as it was; a panic ends the whole traversal.
\<close>

fun printDependencyRecursive ::
      "string \<Rightarrow> Dependency \<Rightarrow> log_entry list \<Rightarrow> panic option \<times> log_entry list"
  and printDependencies ::
      "string \<Rightarrow> Dependency list \<Rightarrow> log_entry list \<Rightarrow> panic option \<times> log_entry list" where
  "printDependencyRecursive prefix (Dependency name ident children) log =
     (if length ident < 5 then (Some (SliceBoundsOutOfRange 5 (length ident)), log)
      else printDependencies (prefix @ ''--'') children
             (log @ [WriteString (prefix @ ''> '' @ name @ '' (ID: '' @ take 5 ident @ '')'' @ [CHR 0x0A])]))"
| "printDependencies prefix [] log = (None, log)"
| "printDependencies prefix (dep # deps) log =
     (case printDependencyRecursive prefix dep log of
        (Some p, log') \<Rightarrow> (Some p, log')
      | (None, log') \<Rightarrow> printDependencies prefix deps log')"

text \<open>All the dependencies of a tree, the root first.\<close>

fun dependencies :: "Dependency \<Rightarrow> Dependency list" where
  "dependencies (Dependency name ident children) =
     Dependency name ident children # concat (map dependencies children)"

section \<open>Concrete collaborators for concrete runs\<close>

text \<open>
  A scripted shell executor: the result of a call depends on its command line only, and
  the world is the list of the command lines run so far.
\<close>

definition scriptShell ::
  "(string \<Rightarrow> shell_result) \<Rightarrow> invocation \<Rightarrow> string list \<Rightarrow> shell_result \<times> string list" where
  "scriptShell script c w = (script (command c), w @ [command c])"

definition demoScript :: "string \<Rightarrow> shell_result" where
  "demoScript cmd =
     (if cmd = ''exit 1'' then \<lparr>writes = [], status = Some (ExitStatus 1)\<rparr>
      else if cmd = ''exit 2'' then
        \<lparr>writes = [(Stdout, ''out''), (Stderr, ''boom'')], status = Some (ExitStatus 2)\<rparr>
      else if cmd = ''echo false'' then
        \<lparr>writes = [(Stdout, '' false'' @ [CHR 0x0A])], status = None\<rparr>
      else if cmd = ''greet'' then
        \<lparr>writes = [(Stdout, ''hello'' @ [CHR 0x0A]), (Stderr, ''world'' @ [CHR 0x0A])],
         status = None\<rparr>
      else \<lparr>writes = [], status = None\<rparr>)"

text \<open>
  Modelled from the spec: the line scanner of \<open>pkg/util/scanner\<close>, which is not among the
  source files. It yields each completed line of the stream, and the rest of the stream at
  its end when that is not empty.
\<close>

fun scanFrom :: "string \<Rightarrow> string \<Rightarrow> string list" where
  "scanFrom line [] = (if line = [] then [] else [line])"
| "scanFrom line (c # cs) =
     (if c = CHR 0x0A then line # scanFrom [] cs else scanFrom (line @ [c]) cs)"

definition scanLines :: "string \<Rightarrow> string list" where
  "scanLines bytes = scanFrom [] bytes"

definition demoContext :: "string list Context" where
  "demoContext =
     \<lparr>ExecuteShellCommand = scriptShell demoScript, osArgs = [], Config = [],
      scanTokens = scanLines\<rparr>"

definition plainStep :: "string \<Rightarrow> PipelineStep" where
  "plainStep cmd = \<lparr>step_Run = cmd, step_Directory = [], step_Env = [], step_If = []\<rparr>"

definition condStep :: "string \<Rightarrow> string \<Rightarrow> PipelineStep" where
  "condStep cond cmd = \<lparr>step_Run = cmd, step_Directory = [], step_Env = [], step_If = cond\<rparr>"

definition emptyState :: "string list state" where
  "emptyState = \<lparr>world = [], scanners = [], calls = []\<rparr>"

text \<open>
  A job that runs the work function once, inside \<open>Start\<close>, and keeps its error; its state
  is that error.
\<close>

definition syncJob :: "(error option, 'w) JobOps" where
  "syncJob =
     \<lparr>Start = (\<lambda>work job s. case work s of (e, s') \<Rightarrow> (None, e, s')),
      Done = (\<lambda>job s. Some (job, s)),
      Error = (\<lambda>job. job)\<rparr>"

definition demoNode :: "string list \<Rightarrow> PipelineStep list \<Rightarrow> (error option) PipelineJob" where
  "demoNode parents steps =
     \<lparr>Name = ''node'', JobConfig = \<lparr>Steps = steps, Rerun = None\<rparr>, Job = None,
      Parents = parents, Children = [], startOnce = False, err = None, starts = 0\<rparr>"

text \<open>
  Three environments of the gating loop: the context is done at the first \<open>select\<close>; every
  parent is done first; the first parent is done, then the context.
\<close>

definition ctxDoneFirst :: "nat \<Rightarrow> select_outcome" where
  "ctxDoneFirst i = CtxDone"

definition parentsDone :: "nat \<Rightarrow> select_outcome" where
  "parentsDone i = ParentDone"

definition ctxDoneSecond :: "nat \<Rightarrow> select_outcome" where
  "ctxDoneSecond i = (if i = 0 then ParentDone else CtxDone)"

section \<open>Evaluating the run condition\<close>

lemma IsExitStatus_one:
  "(snd (IsExitStatus e) \<and> fst (IsExitStatus e) = 1) = (IsExitStatus e = (1, True))"
  by (cases "IsExitStatus e") auto

lemma shouldExecuteStep_result:
  assumes "ExecuteShellCommand ctx (condCall ctx step) (world s) = (r, w)"
  shows "shouldExecuteStep ctx step s =
     ((case status r of
         Some e \<Rightarrow>
           if IsExitStatus e = (1, True) then (False, None)
           else (False, Some (CondError e (received (condCall ctx step) r StdoutBuffer)
                                          (received (condCall ctx step) r StderrBuffer)))
       | None \<Rightarrow>
           if TrimSpace (received (condCall ctx step) r StdoutBuffer) = ''false''
           then (False, None) else (True, None)),
      s\<lparr>world := w, calls := calls s @ [condCall ctx step]\<rparr>)"
  using assms
  by (simp add: shouldExecuteStep_def Let_def IsExitStatus_one split: option.splits)

lemma condCall_command: "command (condCall ctx step) = step_Run step"
  by (simp add: condCall_def)

lemma shouldExecuteStep_scanners: "scanners (snd (shouldExecuteStep ctx step s)) = scanners s"
  by (simp add: shouldExecuteStep_def Let_def split: prod.splits option.splits)

lemma demo_call [simp]:
  "ExecuteShellCommand demoContext c w = (demoScript (command c), w @ [command c])"
  by (simp add: demoContext_def scriptShell_def)

lemma TrimSpace_demo_false: "TrimSpace ('' false'' @ [CHR 0x0A]) = ''false''"
  by code_simp

lemma TrimSpace_demo_hello: "TrimSpace (''hello'' @ [CHR 0x0A]) = ''hello''"
  by code_simp

text \<open>
  C1. The claim: for a step whose \<open>If\<close> is not empty, the condition is evaluated by running
  the step's \<open>If\<close> command line, with the output captured and not logged, and the \<open>Run\<close>
  body is not what is run then. The source passes \<open>step.Run\<close> to the shell executor in
  \<open>shouldExecuteStep\<close> and never reads the text of \<open>step.If\<close>: for the step with
  \<open>If = "test -f go.mod"\<close> and \<open>Run = "make deploy"\<close>, the one command that the condition
  evaluation runs is \<open>make deploy\<close>.
\<close>

theorem shouldExecuteStep_runs_the_Run_command:
  "map command (calls (snd (shouldExecuteStep demoContext
      (condStep ''test -f go.mod'' ''make deploy'') emptyState))) = [''make deploy''] \<and>
   world (snd (shouldExecuteStep demoContext
      (condStep ''test -f go.mod'' ''make deploy'') emptyState)) = [''make deploy'']"
  by (simp add: shouldExecuteStep_def condCall_def condStep_def emptyState_def Let_def
      demoScript_def split: prod.splits option.splits)

text \<open>
  C3. For a step whose \<open>If\<close> is not empty, with \<open>r\<close> the result of the shell executor's
  call for the condition, \<open>out\<close> and \<open>errout\<close> the contents of the two buffers, and \<open>s1\<close>
  the state after that call alone: exit status 1 (an error in which \<open>interp.IsExitStatus\<close>
  finds the status 1) skips the step without an error; every other error gives the error
  built from it and the two buffers (which \<open>doWork\<close> returns wrapped); a nil error with
  \<open>TrimSpace out = "false"\<close> skips the step; in every other nil-error case the step body is
  executed, from \<open>s1\<close>.
\<close>

theorem condition_semantics:
  assumes "step_If step \<noteq> []"
    and "ExecuteShellCommand ctx (condCall ctx step) (world s) = (r, w)"
    and "s1 = s\<lparr>world := w, calls := calls s @ [condCall ctx step]\<rparr>"
    and "out = received (condCall ctx step) r StdoutBuffer"
    and "errout = received (condCall ctx step) r StderrBuffer"
  shows "(status r = Some (ExitStatus 1) \<longrightarrow>
            shouldExecuteStep ctx step s = ((False, None), s1) \<and>
            runStep ctx i step s = (None, s1))
       \<and> (\<forall>e. status r = Some e \<and> IsExitStatus e = (1, True) \<longrightarrow>
            shouldExecuteStep ctx step s = ((False, None), s1) \<and>
            runStep ctx i step s = (None, s1))
       \<and> (\<forall>e. status r = Some e \<and> IsExitStatus e \<noteq> (1, True) \<longrightarrow>
            shouldExecuteStep ctx step s = ((False, Some (CondError e out errout)), s1) \<and>
            runStep ctx i step s = (Some (Wrapf (CondError e out errout) i), s1))
       \<and> (status r = None \<and> TrimSpace out = ''false'' \<longrightarrow>
            shouldExecuteStep ctx step s = ((False, None), s1) \<and>
            runStep ctx i step s = (None, s1))
       \<and> (status r = None \<and> TrimSpace out \<noteq> ''false'' \<longrightarrow>
            shouldExecuteStep ctx step s = ((True, None), s1) \<and>
            runStep ctx i step s = executeStep ctx step s1)"
  using assms(1) shouldExecuteStep_result [OF assms(2)] assms(3-5)
  by (simp add: runStep_def)

theorem condition_semantics_witness:
  "step_If (condStep ''test -f x'' ''exit 1'') \<noteq> [] \<and>
   runStep demoContext 0 (condStep ''test -f x'' ''exit 1'') emptyState =
     (None, emptyState\<lparr>world := [''exit 1''],
              calls := [condCall demoContext (condStep ''test -f x'' ''exit 1'')]\<rparr>) \<and>
   runStep demoContext 3 (condStep ''test -f x'' ''exit 2'') emptyState =
     (Some (Wrapf (CondError (ExitStatus 2) ''out'' ''boom'') 3),
      emptyState\<lparr>world := [''exit 2''],
        calls := [condCall demoContext (condStep ''test -f x'' ''exit 2'')]\<rparr>) \<and>
   runStep demoContext 0 (condStep ''test -f x'' ''echo false'') emptyState =
     (None, emptyState\<lparr>world := [''echo false''],
              calls := [condCall demoContext (condStep ''test -f x'' ''echo false'')]\<rparr>) \<and>
   runStep demoContext 0 (condStep ''test -f x'' ''greet'') emptyState =
     (None, emptyState\<lparr>world := [''greet'', ''greet''],
              scanners := [[Info ''hello'', Info ''world'']],
              calls := [condCall demoContext (condStep ''test -f x'' ''greet''),
                        bodyCall demoContext (condStep ''test -f x'' ''greet'')]\<rparr>)"
proof -
  have a: "runStep demoContext 0 (condStep ''test -f x'' ''exit 1'') emptyState =
     (None, emptyState\<lparr>world := [''exit 1''],
              calls := [condCall demoContext (condStep ''test -f x'' ''exit 1'')]\<rparr>)"
    using condition_semantics [of "condStep ''test -f x'' ''exit 1''" demoContext emptyState
        "demoScript ''exit 1''" "[''exit 1'']" _ _ _ 0, OF _ _ refl refl refl]
    by (simp add: condStep_def condCall_def emptyState_def demoScript_def)
  have b: "runStep demoContext 3 (condStep ''test -f x'' ''exit 2'') emptyState =
     (Some (Wrapf (CondError (ExitStatus 2) ''out'' ''boom'') 3),
      emptyState\<lparr>world := [''exit 2''],
        calls := [condCall demoContext (condStep ''test -f x'' ''exit 2'')]\<rparr>)"
    using condition_semantics [of "condStep ''test -f x'' ''exit 2''" demoContext emptyState
        "demoScript ''exit 2''" "[''exit 2'']" _ _ _ 3, OF _ _ refl refl refl]
    by (simp add: condStep_def condCall_def emptyState_def demoScript_def received_def)
  have c: "runStep demoContext 0 (condStep ''test -f x'' ''echo false'') emptyState =
     (None, emptyState\<lparr>world := [''echo false''],
              calls := [condCall demoContext (condStep ''test -f x'' ''echo false'')]\<rparr>)"
    using condition_semantics [of "condStep ''test -f x'' ''echo false''" demoContext emptyState
        "demoScript ''echo false''" "[''echo false'']" _ _ _ 0, OF _ _ refl refl refl]
    by (simp add: condStep_def condCall_def emptyState_def demoScript_def received_def TrimSpace_demo_false [simplified])
  have d: "runStep demoContext 0 (condStep ''test -f x'' ''greet'') emptyState =
     (None, emptyState\<lparr>world := [''greet'', ''greet''],
              scanners := [[Info ''hello'', Info ''world'']],
              calls := [condCall demoContext (condStep ''test -f x'' ''greet''),
                        bodyCall demoContext (condStep ''test -f x'' ''greet'')]\<rparr>)"
    using condition_semantics [of "condStep ''test -f x'' ''greet''" demoContext emptyState
        "demoScript ''greet''" "[''greet'']" _ _ _ 0, OF _ _ refl refl refl]
    by (simp add: condStep_def condCall_def bodyCall_def emptyState_def demoScript_def
        received_def TrimSpace_demo_hello [simplified] executeStep_def scanLines_def demoContext_def scriptShell_def)
  show ?thesis using a b c d by (simp add: condStep_def)
qed

section \<open>The loop over the steps\<close>

lemma doWork_loop_append:
  "doWork_loop ctx i (xs @ ys) s =
     (case doWork_loop ctx i xs s of
        (Some e, s') \<Rightarrow> (Some e, s')
      | (None, s') \<Rightarrow> doWork_loop ctx (i + length xs) ys s')"
  by (induction xs arbitrary: i s) (auto split: prod.splits option.splits)

lemma doWork_at:
  assumes "doWork ctx xs s = (None, s1)"
  shows "doWork ctx (xs @ step # ys) s =
     (case runStep ctx (length xs) step s1 of
        (Some e, s2) \<Rightarrow> (Some e, s2)
      | (None, s2) \<Rightarrow> doWork_loop ctx (Suc (length xs)) ys s2)"
  using assms by (simp add: doWork_def doWork_loop_append)

lemma executeStep_calls: "calls (snd (executeStep ctx step s)) = calls s @ [bodyCall ctx step]"
  by (simp add: executeStep_def Let_def split: prod.splits)

lemma shouldExecuteStep_calls:
  "calls (snd (shouldExecuteStep ctx step s)) = calls s @ [condCall ctx step]"
  by (simp add: shouldExecuteStep_def Let_def split: prod.splits option.splits)

lemma runStep_calls:
  "\<exists>k \<in> stepCalls ctx step. calls (snd (runStep ctx i step s)) = calls s @ k"
proof (cases "step_If step = []")
  case True
  then show ?thesis
    by (simp add: runStep_def stepCalls_def executeStep_calls)
next
  case False
  obtain b eo s1 where r: "shouldExecuteStep ctx step s = ((b, eo), s1)"
    by (metis surj_pair)
  then have c: "calls s1 = calls s @ [condCall ctx step]"
    using shouldExecuteStep_calls [of ctx step s] by simp
  show ?thesis
  proof (cases eo)
    case (Some e)
    with False r c show ?thesis by (simp add: runStep_def stepCalls_def)
  next
    case None
    with False r c show ?thesis
      by (cases b) (simp_all add: runStep_def stepCalls_def executeStep_calls)
  qed
qed

lemma doWork_loop_trace:
  "\<exists>ks. length ks \<le> length steps \<and>
        list_all2 (\<lambda>step k. k \<in> stepCalls ctx step) (take (length ks) steps) ks \<and>
        calls (snd (doWork_loop ctx i steps s)) = calls s @ concat ks \<and>
        (fst (doWork_loop ctx i steps s) = None \<longrightarrow> length ks = length steps)"
proof (induction steps arbitrary: i s)
  case Nil
  show ?case by simp
next
  case (Cons step steps)
  obtain k where k: "k \<in> stepCalls ctx step"
    and kc: "calls (snd (runStep ctx i step s)) = calls s @ k"
    using runStep_calls [of ctx step i s] by blast
  obtain r s1 where rs: "runStep ctx i step s = (r, s1)"
    by (metis surj_pair)
  show ?case
  proof (cases r)
    case (Some e)
    with rs k kc show ?thesis
      by (intro exI [of _ "[k]"]) simp
  next
    case None
    from Cons.IH [of "Suc i" s1] obtain ks where
      ks: "length ks \<le> length steps"
        "list_all2 (\<lambda>step k. k \<in> stepCalls ctx step) (take (length ks) steps) ks"
        "calls (snd (doWork_loop ctx (Suc i) steps s1)) = calls s1 @ concat ks"
        "fst (doWork_loop ctx (Suc i) steps s1) = None \<longrightarrow> length ks = length steps"
      by auto
    with None rs k kc show ?thesis
      by (intro exI [of _ "k # ks"]) simp
  qed
qed

lemmas demo_simps =
  doWork_def runStep_def shouldExecuteStep_def executeStep_def Let_def condCall_def
  bodyCall_def plainStep_def condStep_def emptyState_def demoScript_def received_def
  scanLines_def demoContext_def scriptShell_def

text \<open>
  C7. Let the steps before \<open>step\<close> (the list \<open>xs\<close>) have finished without an error,
  executed or skipped, leaving the state \<open>s1\<close>; \<open>step\<close> is then run in \<open>s1\<close>, at the index
  \<open>length xs\<close>. If it produces an error, \<open>doWork\<close> returns that error in the state the
  step has left, whatever the later steps \<open>ys\<close> are: none of them runs. If it is skipped,
  or finishes without an error, \<open>doWork\<close> goes on with the later steps, from the state
  the step has left. The calls of the shell executor during \<open>doWork\<close> are those of an
  initial segment of the steps, step by step in the declared order, and of all the steps
  when no error is returned.
\<close>

theorem doWork_steps_in_order:
  assumes "doWork ctx xs s = (None, s1)"
  shows "(\<forall>e s2. runStep ctx (length xs) step s1 = (Some e, s2) \<longrightarrow>
            doWork ctx (xs @ step # ys) s = (Some e, s2))
       \<and> (\<forall>s2. step_If step \<noteq> [] \<and> shouldExecuteStep ctx step s1 = ((False, None), s2) \<longrightarrow>
            doWork ctx (xs @ step # ys) s = doWork_loop ctx (Suc (length xs)) ys s2)
       \<and> (\<forall>s2. runStep ctx (length xs) step s1 = (None, s2) \<longrightarrow>
            doWork ctx (xs @ step # ys) s = doWork_loop ctx (Suc (length xs)) ys s2)
       \<and> (\<exists>ks. length ks \<le> length (xs @ step # ys) \<and>
            list_all2 (\<lambda>step k. k \<in> stepCalls ctx step) (take (length ks) (xs @ step # ys)) ks \<and>
            calls (snd (doWork ctx (xs @ step # ys) s)) = calls s @ concat ks \<and>
            (fst (doWork ctx (xs @ step # ys) s) = None \<longrightarrow> length ks = length (xs @ step # ys)))"
proof (intro conjI allI impI)
  fix e s2
  assume "runStep ctx (length xs) step s1 = (Some e, s2)"
  then show "doWork ctx (xs @ step # ys) s = (Some e, s2)"
    by (simp add: doWork_at [OF assms])
next
  fix s2
  assume "step_If step \<noteq> [] \<and> shouldExecuteStep ctx step s1 = ((False, None), s2)"
  then have "runStep ctx (length xs) step s1 = (None, s2)"
    by (simp add: runStep_def)
  then show "doWork ctx (xs @ step # ys) s = doWork_loop ctx (Suc (length xs)) ys s2"
    by (simp add: doWork_at [OF assms])
next
  fix s2
  assume "runStep ctx (length xs) step s1 = (None, s2)"
  then show "doWork ctx (xs @ step # ys) s = doWork_loop ctx (Suc (length xs)) ys s2"
    by (simp add: doWork_at [OF assms])
next
  show "\<exists>ks. length ks \<le> length (xs @ step # ys) \<and>
            list_all2 (\<lambda>step k. k \<in> stepCalls ctx step) (take (length ks) (xs @ step # ys)) ks \<and>
            calls (snd (doWork ctx (xs @ step # ys) s)) = calls s @ concat ks \<and>
            (fst (doWork ctx (xs @ step # ys) s) = None \<longrightarrow> length ks = length (xs @ step # ys))"
    unfolding doWork_def by (rule doWork_loop_trace)
qed

theorem doWork_steps_in_order_witness:
  "doWork demoContext [plainStep ''greet''] emptyState =
     (None, \<lparr>world = [''greet''], scanners = [[Info ''hello'', Info ''world'']],
             calls = [bodyCall demoContext (plainStep ''greet'')]\<rparr>) \<and>
   doWork demoContext
     [plainStep ''greet'', condStep ''test -f x'' ''exit 1'', plainStep ''exit 2'',
      plainStep ''greet''] emptyState =
     (Some (ExitStatus 2),
      \<lparr>world = [''greet'', ''exit 1'', ''exit 2''],
       scanners = [[Info ''hello'', Info ''world''], [Info ''outboom'']],
       calls = [bodyCall demoContext (plainStep ''greet''),
                condCall demoContext (condStep ''test -f x'' ''exit 1''),
                bodyCall demoContext (plainStep ''exit 2'')]\<rparr>)"
proof -
  have h: "doWork demoContext [plainStep ''greet''] emptyState =
     (None, \<lparr>world = [''greet''], scanners = [[Info ''hello'', Info ''world'']],
             calls = [bodyCall demoContext (plainStep ''greet'')]\<rparr>)"
    by (simp add: demo_simps)
  show ?thesis
    using h doWork_steps_in_order [OF h, of "condStep ''test -f x'' ''exit 1''"
        "[plainStep ''exit 2'', plainStep ''greet'']"]
    by (simp add: demo_simps)
qed

text \<open>
  C2, as claimed: every error of a step, of its body as of its condition, is returned
  wrapped with the index of the step. The job with the single step \<open>Run = "exit 2"\<close> and
  no condition returns the exit status error as the shell executor gave it, not wrapped.
\<close>

theorem body_error_not_wrapped:
  "fst (doWork demoContext [plainStep ''exit 2''] emptyState) = Some (ExitStatus 2) \<and>
   fst (doWork demoContext [plainStep ''exit 2''] emptyState) \<noteq> Some (Wrapf (ExitStatus 2) 0)"
  by (simp add: demo_simps)

text \<open>
  C2, amended. Let the steps before \<open>step\<close> have finished without an error, leaving
  \<open>s1\<close>, so that \<open>step\<close> is the step at index \<open>length xs\<close>. An error of the evaluation of
  its condition stops \<open>doWork\<close>, which returns it wrapped with that index. An error of its
  body (run because there is no condition, or because the condition holds) stops
  \<open>doWork\<close> too, which returns it as \<open>executeStep\<close> returned it.
\<close>

theorem doWork_error_wrapping:
  assumes "doWork ctx xs s = (None, s1)"
  shows "(\<forall>b e s2. step_If step \<noteq> [] \<and> shouldExecuteStep ctx step s1 = ((b, Some e), s2) \<longrightarrow>
            doWork ctx (xs @ step # ys) s = (Some (Wrapf e (length xs)), s2))
       \<and> (\<forall>e s2. step_If step = [] \<and> executeStep ctx step s1 = (Some e, s2) \<longrightarrow>
            doWork ctx (xs @ step # ys) s = (Some e, s2))
       \<and> (\<forall>e s2 s3. step_If step \<noteq> [] \<and> shouldExecuteStep ctx step s1 = ((True, None), s2) \<and>
              executeStep ctx step s2 = (Some e, s3) \<longrightarrow>
            doWork ctx (xs @ step # ys) s = (Some e, s3))"
  by (auto simp: doWork_at [OF assms] runStep_def)

theorem doWork_error_wrapping_witness:
  "doWork demoContext [plainStep ''greet''] emptyState =
     (None, \<lparr>world = [''greet''], scanners = [[Info ''hello'', Info ''world'']],
             calls = [bodyCall demoContext (plainStep ''greet'')]\<rparr>) \<and>
   doWork demoContext
     [plainStep ''greet'', condStep ''test -f x'' ''exit 2'', plainStep ''greet''] emptyState =
     (Some (Wrapf (CondError (ExitStatus 2) ''out'' ''boom'') 1),
      \<lparr>world = [''greet'', ''exit 2''], scanners = [[Info ''hello'', Info ''world'']],
       calls = [bodyCall demoContext (plainStep ''greet''),
                condCall demoContext (condStep ''test -f x'' ''exit 2'')]\<rparr>) \<and>
   doWork demoContext
     [plainStep ''greet'', plainStep ''exit 2'', plainStep ''greet''] emptyState =
     (Some (ExitStatus 2),
      \<lparr>world = [''greet'', ''exit 2''],
       scanners = [[Info ''hello'', Info ''world''], [Info ''outboom'']],
       calls = [bodyCall demoContext (plainStep ''greet''),
                bodyCall demoContext (plainStep ''exit 2'')]\<rparr>)"
proof -
  have h: "doWork demoContext [plainStep ''greet''] emptyState =
     (None, \<lparr>world = [''greet''], scanners = [[Info ''hello'', Info ''world'']],
             calls = [bodyCall demoContext (plainStep ''greet'')]\<rparr>)"
    by (simp add: demo_simps)
  show ?thesis
    using h
      doWork_error_wrapping [OF h, of "condStep ''test -f x'' ''exit 2''" "[plainStep ''greet'']"]
      doWork_error_wrapping [OF h, of "plainStep ''exit 2''" "[plainStep ''greet'']"]
    by (simp add: demo_simps)
qed

section \<open>The output of a step body\<close>

lemma received_both:
  assumes "stdoutW c = w" and "stderrW c = w"
  shows "received c r w = concat (map snd (writes r))"
proof -
  have "filter (\<lambda>(st, _). (case st of Stdout \<Rightarrow> stdoutW c | Stderr \<Rightarrow> stderrW c) = w) (writes r)
          = writes r"
    using assms by (auto simp: filter_id_conv split: stream.splits)
  then show ?thesis
    by (simp add: received_def)
qed

lemma received_pipe: "received (bodyCall ctx step) r PipeWriter = concat (map snd (writes r))"
  by (rule received_both) (simp_all add: bodyCall_def)

text \<open>
  What \<open>executeStep\<close> does with the output of the body, with \<open>r\<close> the result of the
  shell executor's call: the goroutine it starts has the tokens of the bytes written to
  standard output and to standard error, in the order of the writes, to log at info
  level; the error returned is the one of the shell executor, whatever the output is.
\<close>

lemma executeStep_result:
  assumes "ExecuteShellCommand ctx (bodyCall ctx step) (world s) = (r, w)"
  shows "executeStep ctx step s =
     (status r,
      s\<lparr>world := w,
        scanners := scanners s @ [map Info (scanTokens ctx (concat (map snd (writes r))))],
        calls := calls s @ [bodyCall ctx step]\<rparr>)"
  using assms by (simp add: executeStep_def received_pipe)

lemma executeStep_error:
  "fst (executeStep ctx step s) = status (fst (ExecuteShellCommand ctx (bodyCall ctx step) (world s)))"
  by (simp add: executeStep_def Let_def split: prod.splits)

section \<open>Running a pipeline job\<close>

lemma Run_started: "startOnce j \<Longrightarrow> Run ops ctx sel j s = Some (err j, j, s)"
  by (simp add: Run_def)

lemma Run_returns:
  assumes "Run ops ctx sel j s = Some (r, j1, s1)"
  shows "startOnce j1 \<and> err j1 = r"
  using assms by (auto simp: Run_def split: if_splits option.splits)

lemma startBody_starts:
  assumes "startBody ops ctx sel j s = Some (j1, s1)"
  shows "starts j1 = (if gate sel 0 (Parents j) = Cancelled then starts j else Suc (starts j))"
  using assms
  by (auto simp: startBody_def split: gate_result.splits prod.splits option.splits if_splits)

lemma Run_starts:
  assumes "\<not> startOnce j" and "Run ops ctx sel j s = Some (r, j1, s1)"
  shows "starts j1 = (if gate sel 0 (Parents j) = Cancelled then starts j else Suc (starts j))"
proof -
  from assms obtain j0 where b: "startBody ops ctx sel j s = Some (j0, s1)"
    and j1: "j1 = j0\<lparr>startOnce := True\<rparr>"
    by (auto simp: Run_def split: option.splits)
  from startBody_starts [OF b] j1 show ?thesis
    by simp
qed

lemma RunAll_started:
  "startOnce j \<Longrightarrow> RunAll ops callers j s = Some (replicate (length callers) (err j), j, s)"
  by (induction callers) (auto simp: Run_started)

lemma RunAll_after_first:
  assumes "Run ops ctx sel j s = Some (r, j1, s1)"
  shows "RunAll ops ((ctx, sel) # rest) j s = Some (replicate (Suc (length rest)) r, j1, s1)"
proof -
  from Run_returns [OF assms] have "startOnce j1" and "err j1 = r"
    by simp_all
  with assms RunAll_started [of j1 ops rest s1] show ?thesis
    by simp
qed

lemma gate_Cancelled:
  assumes "k < length parents" and "sel (i + k) = CtxDone"
    and "\<forall>m<k. sel (i + m) = ParentDone"
  shows "gate sel i parents = Cancelled"
  using assms
proof (induction parents arbitrary: i k)
  case Nil
  then show ?case by simp
next
  case (Cons p ps)
  show ?case
  proof (cases k)
    case 0
    with Cons.prems show ?thesis by simp
  next
    case (Suc k')
    from Cons.prems Suc have "sel i = ParentDone"
      by (metis add.right_neutral zero_less_Suc)
    moreover have "gate sel (Suc i) ps = Cancelled"
    proof (rule Cons.IH [of k'])
      show "k' < length ps" using Cons.prems Suc by simp
      show "sel (Suc i + k') = CtxDone" using Cons.prems Suc by simp
      show "\<forall>m<k'. sel (Suc i + m) = ParentDone"
      proof (intro allI impI)
        fix m assume "m < k'"
        then have "Suc m < k" using Suc by simp
        with Cons.prems have "sel (i + Suc m) = ParentDone" by blast
        then show "sel (Suc i + m) = ParentDone" by simp
      qed
    qed
    ultimately show ?thesis by simp
  qed
qed

lemma Run_cancelled:
  assumes "\<not> startOnce j" and "gate sel 0 (Parents j) = Cancelled"
  shows "Run ops ctx sel j s = Some (err j, j\<lparr>startOnce := True\<rparr>, s)"
  using assms by (simp add: Run_def startBody_def)

lemma doWork_demo_exit2:
  "doWork demoContext [plainStep ''exit 2''] emptyState =
     (Some (ExitStatus 2),
      \<lparr>world = [''exit 2''], scanners = [[Info ''outboom'']],
       calls = [bodyCall demoContext (plainStep ''exit 2'')]\<rparr>)"
  by (simp add: demo_simps)

lemma doWork_demo_greet:
  "doWork demoContext [plainStep ''greet''] emptyState =
     (None,
      \<lparr>world = [''greet''], scanners = [[Info ''hello'', Info ''world'']],
       calls = [bodyCall demoContext (plainStep ''greet'')]\<rparr>)"
  by (simp add: demo_simps)

lemmas run_simps =
  Run_def startBody_def syncJob_def demoNode_def ctxDoneFirst_def parentsDone_def
  ctxDoneSecond_def doWork_demo_exit2 doWork_demo_greet

text \<open>
  C5. Once a call of \<open>Run\<close> has returned the error \<open>E\<close>, leaving the node \<open>j1\<close>, a later
  call on that node, with any context, any environment of the gating loop and in any
  state, returns \<open>E\<close> and leaves the node and the state as they are: \<open>Job.Start\<close> is not
  called and no step runs. So do any number of later calls.
\<close>

theorem sticky_error:
  assumes "Run ops ctx sel j s = Some (Some E, j1, s1)"
  shows "Run ops ctx' sel' j1 s' = Some (Some E, j1, s') \<and>
         RunAll ops callers j1 s' = Some (replicate (length callers) (Some E), j1, s')"
  using Run_returns [OF assms] by (simp add: Run_started RunAll_started)

theorem sticky_error_witness:
  "Run syncJob demoContext parentsDone (demoNode [''build''] [plainStep ''exit 2'']) emptyState =
     Some (Some (ExitStatus 2),
           (demoNode [''build''] [plainStep ''exit 2''])
             \<lparr>Job := Some (ExitStatus 2), startOnce := True, err := Some (ExitStatus 2),
              starts := 1\<rparr>,
           \<lparr>world = [''exit 2''], scanners = [[Info ''outboom'']],
            calls = [bodyCall demoContext (plainStep ''exit 2'')]\<rparr>) \<and>
   RunAll syncJob [(demoContext, parentsDone), (demoContext, ctxDoneFirst)]
     ((demoNode [''build''] [plainStep ''exit 2''])
        \<lparr>Job := Some (ExitStatus 2), startOnce := True, err := Some (ExitStatus 2),
         starts := 1\<rparr>)
     emptyState =
     Some ([Some (ExitStatus 2), Some (ExitStatus 2)],
           (demoNode [''build''] [plainStep ''exit 2''])
             \<lparr>Job := Some (ExitStatus 2), startOnce := True, err := Some (ExitStatus 2),
              starts := 1\<rparr>,
           emptyState)"
proof -
  have h: "Run syncJob demoContext parentsDone (demoNode [''build''] [plainStep ''exit 2''])
      emptyState =
     Some (Some (ExitStatus 2),
           (demoNode [''build''] [plainStep ''exit 2''])
             \<lparr>Job := Some (ExitStatus 2), startOnce := True, err := Some (ExitStatus 2),
              starts := 1\<rparr>,
           \<lparr>world = [''exit 2''], scanners = [[Info ''outboom'']],
            calls = [bodyCall demoContext (plainStep ''exit 2'')]\<rparr>)"
    by (simp add: run_simps)
  show ?thesis
    using h sticky_error [OF h, where ctx' = demoContext and sel' = ctxDoneFirst
        and s' = emptyState
        and callers = "[(demoContext, parentsDone), (demoContext, ctxDoneFirst)]"]
    by simp
qed

text \<open>
  C6. On a node that has not run yet (the guard is not consumed, the error slot is nil),
  let the \<open>select\<close> for the parent at index \<open>k\<close> take the case of the context's \<open>Done\<close>
  channel, the parents before it being done. Then \<open>Run\<close> returns, with a nil error; the
  state is unchanged and \<open>Job.Start\<close> is not called, so the work function does not run.
\<close>

theorem cancellation_during_gating:
  assumes "\<not> startOnce j" and "err j = None"
    and "k < length (Parents j)" and "sel k = CtxDone" and "\<forall>i<k. sel i = ParentDone"
  shows "Run ops ctx sel j s = Some (None, j\<lparr>startOnce := True\<rparr>, s)"
proof -
  have "gate sel 0 (Parents j) = Cancelled"
    using assms(3-5) by (intro gate_Cancelled [of k]) simp_all
  with assms(1,2) show ?thesis
    by (simp add: Run_cancelled)
qed

theorem cancellation_during_gating_witness:
  "Run syncJob demoContext ctxDoneSecond (demoNode [''build'', ''test''] [plainStep ''greet''])
     emptyState =
     Some (None, (demoNode [''build'', ''test''] [plainStep ''greet''])\<lparr>startOnce := True\<rparr>,
           emptyState)"
  using cancellation_during_gating [where j = "demoNode [''build'', ''test''] [plainStep ''greet'']"
      and k = 1 and sel = ctxDoneSecond and ops = syncJob and ctx = demoContext and s = emptyState]
  by (simp add: demoNode_def ctxDoneSecond_def)

text \<open>
  C9. When the first call of \<open>Run\<close> on a node has met the cancellation while gating, it
  leaves a node \<open>j1\<close> on which every later call, whatever its context and whatever the
  parents have done since, returns nil and changes neither the node nor the state: the
  job is never started (\<open>starts\<close> stays as it was) and no step runs.
\<close>

theorem guard_consumed_by_cancellation:
  assumes "\<not> startOnce j" and "err j = None"
    and "k < length (Parents j)" and "sel k = CtxDone" and "\<forall>i<k. sel i = ParentDone"
    and "Run ops ctx sel j s = Some (r, j1, s1)"
  shows "RunAll ops callers j1 s' = Some (replicate (length callers) None, j1, s') \<and>
         starts j1 = starts j \<and> s1 = s"
proof -
  have "gate sel 0 (Parents j) = Cancelled"
    using assms(3-5) by (intro gate_Cancelled [of k]) simp_all
  with assms(1) have "Run ops ctx sel j s = Some (err j, j\<lparr>startOnce := True\<rparr>, s)"
    by (rule Run_cancelled)
  with assms(6) have j1: "j1 = j\<lparr>startOnce := True\<rparr>" and "s1 = s"
    by simp_all
  with assms(2) show ?thesis
    by (simp add: RunAll_started)
qed

theorem guard_consumed_by_cancellation_witness:
  "Run syncJob demoContext ctxDoneFirst (demoNode [''build''] [plainStep ''greet'']) emptyState =
     Some (None, (demoNode [''build''] [plainStep ''greet''])\<lparr>startOnce := True\<rparr>, emptyState) \<and>
   RunAll syncJob [(demoContext, parentsDone), (demoContext, parentsDone)]
     ((demoNode [''build''] [plainStep ''greet''])\<lparr>startOnce := True\<rparr>) emptyState =
     Some ([None, None], (demoNode [''build''] [plainStep ''greet''])\<lparr>startOnce := True\<rparr>,
           emptyState) \<and>
   starts ((demoNode [''build''] [plainStep ''greet''])\<lparr>startOnce := True\<rparr>) = 0"
proof -
  have h: "Run syncJob demoContext ctxDoneFirst (demoNode [''build''] [plainStep ''greet''])
      emptyState =
     Some (None, (demoNode [''build''] [plainStep ''greet''])\<lparr>startOnce := True\<rparr>, emptyState)"
    by (simp add: run_simps)
  show ?thesis
    using h guard_consumed_by_cancellation [OF _ _ _ _ _ h, where k = 0 and s' = emptyState
        and callers = "[(demoContext, parentsDone), (demoContext, parentsDone)]"]
    by (simp add: demoNode_def ctxDoneFirst_def)
qed

text \<open>
  C8, as claimed: for every number of callers the work function runs exactly once. With
  one caller whose context is done while the node waits for its parent, \<open>Run\<close> returns nil,
  \<open>Job.Start\<close> has not been called and no step has run; a second caller, with the parent
  done, changes nothing.
\<close>

theorem work_never_runs_when_cancelled:
  "RunAll syncJob [(demoContext, ctxDoneFirst)] (demoNode [''build''] [plainStep ''greet''])
     emptyState =
     Some ([None], (demoNode [''build''] [plainStep ''greet''])\<lparr>startOnce := True\<rparr>, emptyState) \<and>
   starts ((demoNode [''build''] [plainStep ''greet''])\<lparr>startOnce := True\<rparr>) = 0 \<and>
   calls emptyState = [] \<and>
   RunAll syncJob [(demoContext, ctxDoneFirst), (demoContext, parentsDone)]
     (demoNode [''build''] [plainStep ''greet'']) emptyState =
     Some ([None, None], (demoNode [''build''] [plainStep ''greet''])\<lparr>startOnce := True\<rparr>,
           emptyState)"
  by (simp add: run_simps emptyState_def)

text \<open>
  C8, amended. Take a node that has not run yet and any number of callers, in the order
  in which the \<open>sync.Once\<close> lets them through, the first with the context \<open>ctx\<close> and the
  environment \<open>sel\<close> of the gating loop. If the first caller meets the cancellation while
  gating, the job is never started and every call returns nil, with the state unchanged.
  In every other case in which the first call returns, \<open>Job.Start\<close> has been called with
  the work function exactly once, and every call returns the outcome of that first call,
  the later calls changing neither the node nor the state.
\<close>

theorem run_once_unless_cancelled:
  assumes "\<not> startOnce j" and "err j = None" and "starts j = 0"
  shows "(gate sel 0 (Parents j) = Cancelled \<longrightarrow>
            RunAll ops ((ctx, sel) # rest) j s =
              Some (replicate (Suc (length rest)) None, j\<lparr>startOnce := True\<rparr>, s) \<and>
            starts (j\<lparr>startOnce := True\<rparr>) = 0)
       \<and> (\<forall>r j1 s1. gate sel 0 (Parents j) \<noteq> Cancelled \<and>
              Run ops ctx sel j s = Some (r, j1, s1) \<longrightarrow>
            starts j1 = 1 \<and>
            RunAll ops ((ctx, sel) # rest) j s = Some (replicate (Suc (length rest)) r, j1, s1))"
proof (intro conjI impI allI)
  assume "gate sel 0 (Parents j) = Cancelled"
  with assms(1) have "Run ops ctx sel j s = Some (err j, j\<lparr>startOnce := True\<rparr>, s)"
    by (rule Run_cancelled)
  with assms(2) have "Run ops ctx sel j s = Some (None, j\<lparr>startOnce := True\<rparr>, s)"
    by simp
  then show "RunAll ops ((ctx, sel) # rest) j s =
      Some (replicate (Suc (length rest)) None, j\<lparr>startOnce := True\<rparr>, s)"
    by (rule RunAll_after_first)
next
  show "starts (j\<lparr>startOnce := True\<rparr>) = 0"
    using assms(3) by simp
next
  fix r j1 s1
  assume h: "gate sel 0 (Parents j) \<noteq> Cancelled \<and> Run ops ctx sel j s = Some (r, j1, s1)"
  then have r: "Run ops ctx sel j s = Some (r, j1, s1)"
    by simp
  from Run_starts [OF assms(1) r] h assms(3) show "starts j1 = 1"
    by simp
  from r show "RunAll ops ((ctx, sel) # rest) j s = Some (replicate (Suc (length rest)) r, j1, s1)"
    by (rule RunAll_after_first)
qed

theorem run_once_unless_cancelled_witness:
  "RunAll syncJob [(demoContext, ctxDoneSecond), (demoContext, parentsDone)]
     (demoNode [''build'', ''test''] [plainStep ''greet'']) emptyState =
     Some ([None, None], (demoNode [''build'', ''test''] [plainStep ''greet''])\<lparr>startOnce := True\<rparr>,
           emptyState) \<and>
   starts ((demoNode [''build'', ''test''] [plainStep ''greet''])\<lparr>startOnce := True\<rparr>) = 0 \<and>
   starts ((demoNode [''build''] [plainStep ''exit 2''])
             \<lparr>Job := Some (ExitStatus 2), startOnce := True, err := Some (ExitStatus 2),
              starts := 1\<rparr>) = 1 \<and>
   RunAll syncJob [(demoContext, parentsDone), (demoContext, ctxDoneFirst), (demoContext, parentsDone)]
     (demoNode [''build''] [plainStep ''exit 2'']) emptyState =
     Some ([Some (ExitStatus 2), Some (ExitStatus 2), Some (ExitStatus 2)],
           (demoNode [''build''] [plainStep ''exit 2''])
             \<lparr>Job := Some (ExitStatus 2), startOnce := True, err := Some (ExitStatus 2),
              starts := 1\<rparr>,
           \<lparr>world = [''exit 2''], scanners = [[Info ''outboom'']],
            calls = [bodyCall demoContext (plainStep ''exit 2'')]\<rparr>)"
proof -
  have c: "gate ctxDoneSecond 0 (Parents (demoNode [''build'', ''test''] [plainStep ''greet''])) =
      Cancelled"
    by (simp add: demoNode_def ctxDoneSecond_def)
  have a: "RunAll syncJob [(demoContext, ctxDoneSecond), (demoContext, parentsDone)]
       (demoNode [''build'', ''test''] [plainStep ''greet'']) emptyState =
       Some (replicate (Suc (length [(demoContext, parentsDone)])) None,
             (demoNode [''build'', ''test''] [plainStep ''greet''])\<lparr>startOnce := True\<rparr>,
             emptyState) \<and>
     starts ((demoNode [''build'', ''test''] [plainStep ''greet''])\<lparr>startOnce := True\<rparr>) = 0"
    by (rule run_once_unless_cancelled [THEN conjunct1, THEN mp, OF _ _ _ c])
      (simp_all add: demoNode_def)
  have p: "gate parentsDone 0 (Parents (demoNode [''build''] [plainStep ''exit 2''])) \<noteq> Cancelled"
    by (simp add: demoNode_def parentsDone_def)
  have h: "Run syncJob demoContext parentsDone (demoNode [''build''] [plainStep ''exit 2''])
      emptyState =
     Some (Some (ExitStatus 2),
           (demoNode [''build''] [plainStep ''exit 2''])
             \<lparr>Job := Some (ExitStatus 2), startOnce := True, err := Some (ExitStatus 2),
              starts := 1\<rparr>,
           \<lparr>world = [''exit 2''], scanners = [[Info ''outboom'']],
            calls = [bodyCall demoContext (plainStep ''exit 2'')]\<rparr>)"
    by (simp add: run_simps)
  have b: "starts ((demoNode [''build''] [plainStep ''exit 2''])
             \<lparr>Job := Some (ExitStatus 2), startOnce := True, err := Some (ExitStatus 2),
              starts := 1\<rparr>) = 1 \<and>
     RunAll syncJob
       ((demoContext, parentsDone) # [(demoContext, ctxDoneFirst), (demoContext, parentsDone)])
       (demoNode [''build''] [plainStep ''exit 2'']) emptyState =
     Some (replicate (Suc (length [(demoContext, ctxDoneFirst), (demoContext, parentsDone)]))
             (Some (ExitStatus 2)),
           (demoNode [''build''] [plainStep ''exit 2''])
             \<lparr>Job := Some (ExitStatus 2), startOnce := True, err := Some (ExitStatus 2),
              starts := 1\<rparr>,
           \<lparr>world = [''exit 2''], scanners = [[Info ''outboom'']],
            calls = [bodyCall demoContext (plainStep ''exit 2'')]\<rparr>)"
    by (rule run_once_unless_cancelled [THEN conjunct2, THEN spec, THEN spec, THEN spec, THEN mp,
          OF _ _ _ conjI [OF p h]])
      (simp_all add: demoNode_def)
  from a b show ?thesis
    by (simp only: replicate.simps list.size One_nat_def add_Suc_right add_0_right
        Nat.add_0_right simp_thms)
qed

section \<open>The slice of the dependency ID\<close>

lemma print_safe_iff:
  "(fst (printDependencyRecursive prefix dep log) = None) =
     (\<forall>d \<in> set (dependencies dep). 5 \<le> length (dep_ID d))"
  "(fst (printDependencies prefix deps log) = None) =
     (\<forall>dep \<in> set deps. \<forall>d \<in> set (dependencies dep). 5 \<le> length (dep_ID d))"
proof (induction prefix dep log and prefix deps log
    rule: printDependencyRecursive_printDependencies.induct)
  case (1 prefix name ident children log)
  then show ?case by (auto simp: not_less)
next
  case (2 prefix log)
  show ?case by simp
next
  case (3 prefix dep deps log)
  then show ?case
    by (auto split: prod.splits option.splits)
qed

text \<open>
  C10. \<open>printDependencyRecursive\<close> finishes without a panic exactly when every dependency
  of the tree has an ID of at least 5 bytes: a tree with a shorter ID anywhere reaches the
  slice \<open>dep.ID()[:5]\<close> out of range. At a dependency whose own ID is shorter, the panic
  comes before anything is written.
\<close>

theorem printDependencyRecursive_safe_iff:
  "((fst (printDependencyRecursive prefix dep log) = None) =
      (\<forall>d \<in> set (dependencies dep). 5 \<le> length (dep_ID d))) \<and>
   (length (dep_ID dep) < 5 \<longrightarrow>
      printDependencyRecursive prefix dep log =
        (Some (SliceBoundsOutOfRange 5 (length (dep_ID dep))), log))"
proof
  show "(fst (printDependencyRecursive prefix dep log) = None) =
      (\<forall>d \<in> set (dependencies dep). 5 \<le> length (dep_ID d))"
    by (rule print_safe_iff(1))
  show "length (dep_ID dep) < 5 \<longrightarrow>
      printDependencyRecursive prefix dep log =
        (Some (SliceBoundsOutOfRange 5 (length (dep_ID dep))), log)"
    by (cases dep) simp
qed

theorem printDependencyRecursive_safe_iff_witness:
  "printDependencyRecursive ''--''
     (Dependency ''api'' ''0a1b2c3d'' [Dependency ''db'' ''12345'' [], Dependency ''ui'' ''abc'' []]) [] =
     (Some (SliceBoundsOutOfRange 5 3),
      [WriteString (''--> api (ID: 0a1b2)'' @ [CHR 0x0A]),
       WriteString (''----> db (ID: 12345)'' @ [CHR 0x0A])]) \<and>
   fst (printDependencyRecursive ''--''
     (Dependency ''api'' ''0a1b2c3d'' [Dependency ''db'' ''12345'' [], Dependency ''ui'' ''abc'' []]) [])
     \<noteq> None \<and>
   fst (printDependencyRecursive ''--''
     (Dependency ''api'' ''0a1b2c3d'' [Dependency ''db'' ''12345'' []]) []) = None \<and>
   printDependencyRecursive ''--'' (Dependency ''ui'' ''abc'' []) [] =
     (Some (SliceBoundsOutOfRange 5 3), [])"
  using printDependencyRecursive_safe_iff [of "''--''"
      "Dependency ''api'' ''0a1b2c3d'' [Dependency ''db'' ''12345'' [], Dependency ''ui'' ''abc'' []]" "[]"]
    printDependencyRecursive_safe_iff [of "''--''"
      "Dependency ''api'' ''0a1b2c3d'' [Dependency ''db'' ''12345'' []]" "[]"]
    printDependencyRecursive_safe_iff [of "''--''" "Dependency ''ui'' ''abc'' []" "[]"]
  by simp

end
